theory Spec2Isabelle
  imports Main
begin

section \<open>Python strings and dictionaries\<close>

text \<open>
  Strings are \<open>char list\<close>. \<open>str.lower()\<close> is modelled on the ASCII letters, the only
  characters of the three proxy type names and of the retry keywords; every other
  character is left as it is.
\<close>

definition lower_char :: "char \<Rightarrow> char" where
  "lower_char c =
     (case map_of (zip ''ABCDEFGHIJKLMNOPQRSTUVWXYZ'' ''abcdefghijklmnopqrstuvwxyz'') c of
        Some d \<Rightarrow> d
      | None \<Rightarrow> c)"

definition lower :: "string \<Rightarrow> string" where
  "lower s = map lower_char s"

text \<open>\<open>s.startswith(p)\<close>.\<close>

definition startswith :: "string \<Rightarrow> string \<Rightarrow> bool" where
  "startswith s p = (take (length p) s = p)"

text \<open>
  \<open>s.replace(old, new)\<close> for a non-empty \<open>old\<close>: the occurrences are replaced from
  left to right, without overlap. The source only calls it with non-empty literals.
\<close>

function replace_str :: "string \<Rightarrow> string \<Rightarrow> string \<Rightarrow> string" where
  "replace_str old new [] = []"
| "replace_str old new (c # cs) =
     (if startswith (c # cs) old
      then new @ replace_str old new (drop (length old - 1) cs)
      else c # replace_str old new cs)"
  by pat_completeness auto
termination
  by (relation "measure (\<lambda>(old, new, s). length s)") auto

text \<open>\<open>kw in s\<close> on strings: \<open>kw\<close> occurs in \<open>s\<close> as a contiguous substring.\<close>

fun str_contains :: "string \<Rightarrow> string \<Rightarrow> bool" where
  "str_contains [] kw = (kw = [])"
| "str_contains (c # cs) kw = (startswith (c # cs) kw \<or> str_contains cs kw)"

text \<open>
  A dictionary with string keys is an association list in insertion order, without
  repeated keys. \<open>dict_set\<close> is \<open>d[k] = v\<close>, \<open>dict_get\<close> is \<open>d.get(k, default)\<close> and
  \<open>dict_update\<close> is \<open>d.update(other)\<close>.
\<close>

fun dict_set :: "string \<Rightarrow> 'v \<Rightarrow> (string \<times> 'v) list \<Rightarrow> (string \<times> 'v) list" where
  "dict_set k v [] = [(k, v)]"
| "dict_set k v ((k', v') # d) = (if k' = k then (k, v) # d else (k', v') # dict_set k v d)"

definition dict_get :: "(string \<times> 'v) list \<Rightarrow> string \<Rightarrow> 'v \<Rightarrow> 'v" where
  "dict_get d k dflt = (case map_of d k of Some v \<Rightarrow> v | None \<Rightarrow> dflt)"

definition dict_update :: "(string \<times> 'v) list \<Rightarrow> (string \<times> 'v) list \<Rightarrow> (string \<times> 'v) list" where
  "dict_update d other = foldl (\<lambda>acc (k, v). dict_set k v acc) d other"

text \<open>Truthiness of an optional string: \<open>None\<close> and the empty string are false.\<close>

definition truthy :: "string option \<Rightarrow> bool" where
  "truthy s = (case s of None \<Rightarrow> False | Some t \<Rightarrow> t \<noteq> [])"

section \<open>Proxy configuration (config.py, proxy.py)\<close>

record ProxyConfig =
  enabled :: bool
  type :: string
  address :: string
  username :: "string option"
  password :: "string option"

record ProxyManager =
  pm_config :: "ProxyConfig option"
  proxies :: "(string \<times> string) list option"

text \<open>\<open>ProxyManager._setup_proxies\<close>: the branches in the order of the source.\<close>

definition setup_proxies :: "ProxyManager \<Rightarrow> ProxyManager" where
  "setup_proxies pm =
     (case pm_config pm of
        None \<Rightarrow> pm
      | Some c \<Rightarrow>
          if \<not> enabled c then pm
          else if lower (type c) = ''tor'' then
            pm\<lparr>proxies := Some [(''http'', ''socks5h://127.0.0.1:9150''),
                                (''https'', ''socks5h://127.0.0.1:9150'')]\<rparr>
          else if lower (type c) = ''http'' then
            (let d = [(''http'', ''http://'' @ address c),
                      (''https'', ''https://'' @ address c)]
             in if truthy (username c) \<and> truthy (password c) then
                  pm\<lparr>proxies := Some
                    (dict_set ''https''
                       (''https://'' @ the (username c) @ '':'' @ the (password c) @ ''@'' @ address c)
                       (dict_set ''http''
                          (''http://'' @ the (username c) @ '':'' @ the (password c) @ ''@'' @ address c)
                          d))\<rparr>
                else pm\<lparr>proxies := Some d\<rparr>)
          else if lower (type c) = ''socks5'' then
            pm\<lparr>proxies := Some [(''http'', ''socks5://'' @ address c),
                                (''https'', ''socks5://'' @ address c)]\<rparr>
          else pm)"

text \<open>\<open>ProxyManager.__init__\<close>.\<close>

definition ProxyManager_init :: "ProxyConfig option \<Rightarrow> ProxyManager" where
  "ProxyManager_init config =
     (let pm = \<lparr>pm_config = config, proxies = None\<rparr>
      in case config of
           None \<Rightarrow> pm
         | Some c \<Rightarrow> if enabled c then setup_proxies pm else pm)"

text \<open>\<open>ProxyManager.get_proxy_arguments\<close>. An empty dictionary is false, as \<open>None\<close> is.\<close>

definition get_proxy_arguments :: "ProxyManager \<Rightarrow> string list" where
  "get_proxy_arguments pm =
     (case pm_config pm of
        None \<Rightarrow> []
      | Some c \<Rightarrow>
          if \<not> enabled c then []
          else (case proxies pm of
                  None \<Rightarrow> []
                | Some d \<Rightarrow>
                    if d = [] then []
                    else (let proxy_url = dict_get d ''http'' ''''
                          in if startswith proxy_url ''socks5'' then
                               [''--proxy-server='' @
                                  replace_str ''socks5://'' ''socks5://''
                                    (replace_str ''socks5h://'' ''socks5://'' proxy_url)]
                             else if startswith proxy_url ''http'' then
                               [''--proxy-server='' @ proxy_url]
                             else [])))"

definition get_requests_proxies :: "ProxyManager \<Rightarrow> (string \<times> string) list option" where
  "get_requests_proxies pm = proxies pm"

definition is_enabled :: "ProxyManager \<Rightarrow> bool" where
  "is_enabled pm =
     (case pm_config pm of
        None \<Rightarrow> False
      | Some c \<Rightarrow> enabled c \<and> proxies pm \<noteq> None)"

section \<open>The browser as the driver sees it\<close>

text \<open>
  The WebDriver handle is a reference to an external browser process. The model keeps
  the part of its state that the toolkit reads and writes (cookie jar, window handles,
  focus) together with the ways its commands can fail: an unresponsive process fails
  every command, and single commands can fail on their own (\<open>quit_raises\<close>,
  \<open>nav_raises\<close>, a cookie the browser \<open>rejects\<close>, a window that is \<open>stuck\<close>).
\<close>

datatype jval = JStr string | JNum int | JBool bool | JNull

type_synonym cookie = "(string \<times> jval) list"

type_synonym handle = string

record browser =
  responsive :: bool
  quit_raises :: bool
  nav_raises :: bool
  jar :: "cookie list"
  rejects :: "cookie \<Rightarrow> bool"
  handles :: "handle list"
  focus :: "handle option"
  stuck :: "handle set"

text \<open>
  Exceptions as values. \<open>StartFailed n e\<close> is the exception of \<open>start\<close>, whose message
  is "Failed to start browser after n retries: e"; \<open>BrowserNotStarted\<close> is the one of
  \<open>get_requests_session\<close>, "Browser is not started. Cannot get session.".
\<close>

datatype exn =
    StartFailed nat string
  | BrowserNotStarted
  | WebDriverException string
  | NoSuchWindowException
  | KeyError string
  | AttributeError string
  | OSError string

definition driver_current_url :: "browser \<Rightarrow> exn + unit" where
  "driver_current_url b =
     (if responsive b then Inr () else Inl (WebDriverException ''unresponsive''))"

definition driver_quit :: "browser \<Rightarrow> exn + unit" where
  "driver_quit b =
     (if quit_raises b then Inl (WebDriverException ''quit failed'') else Inr ())"

section \<open>The controller (controller.py)\<close>

text \<open>
  Of \<open>BrowserConfig\<close> the model keeps the fields that decide what \<open>start\<close> and
  \<open>stop\<close> do to the controller: the user-agent policy, the proxy and the user-data
  directory. The stealth settings, the window size and the headless flag only reach
  calls on the browser that are caught or that fail the attempt as a whole.
\<close>

record BrowserConfig =
  user_agent :: "string option"
  proxy :: "ProxyConfig option"
  user_data_dir :: "string option"

text \<open>
  \<open>self_user_data_dir\<close> is the attribute \<open>_user_data_dir\<close> of the source.
\<close>

record controller =
  config :: BrowserConfig
  driver :: "browser option"
  current_user_agent :: "string option"
  proxy_manager :: "ProxyManager option"
  self_user_data_dir :: "string option"

text \<open>What the controller does to the world outside it, in order.\<close>

datatype event =
    PatcherAuto
  | Sleep nat
  | LaunchChrome "string list"
  | Probe
  | Quit
  | Rmtree string

text \<open>
  The world: the class-level flag \<open>_chromedriver_initialized\<close>, the directories that
  exist and that \<open>Path.exists()\<close> finds, the paths on which \<open>Path.exists()\<close> raises
  (a name that is too long, a directory on the way that may not be searched), the
  directories that \<open>rmtree\<close> cannot remove (its errors are ignored), and the trace.
\<close>

record world =
  chromedriver_initialized :: bool
  dirs :: "string set"
  unstatable :: "string set"
  undeletable :: "string set"
  events :: "event list"

definition emit :: "event \<Rightarrow> world \<Rightarrow> world" where
  "emit e w = w\<lparr>events := events w @ [e]\<rparr>"

text \<open>\<open>WebDriverController.__init__\<close>.\<close>

definition controller_init :: "BrowserConfig \<Rightarrow> controller" where
  "controller_init cfg =
     \<lparr>config = cfg, driver = None, current_user_agent = None,
      proxy_manager = (case proxy cfg of None \<Rightarrow> None | Some p \<Rightarrow> Some (ProxyManager_init (Some p))),
      self_user_data_dir = None\<rparr>"

definition default_user_agent :: string where
  "default_user_agent =
     ''Mozilla/5.0 (Windows NT 10.0; Win64; x64) AppleWebKit/537.36 (KHTML, like Gecko) Chrome/120.0.0.0 Safari/537.36''"

text \<open>
  \<open>_get_user_agent\<close>. \<open>random_ua\<close> is what the random pool gives: \<open>None\<close> when the
  package is missing or raises.
\<close>

definition get_user_agent :: "BrowserConfig \<Rightarrow> string option \<Rightarrow> string" where
  "get_user_agent cfg random_ua =
     (case user_agent cfg of
        None \<Rightarrow> default_user_agent
      | Some u \<Rightarrow>
          if u = [] then default_user_agent
          else if u = ''auto'' \<or> lower u = ''auto'' then
            (case random_ua of Some r \<Rightarrow> r | None \<Rightarrow> default_user_agent)
          else u)"

text \<open>
  What one pass through the \<open>try\<close> block of the retry loop can do: \<open>uc.Chrome\<close>
  raises; it returns a driver and a later step raises (reading the window handles,
  setting the window size); or the block reaches \<open>break\<close>. The stealth step and the
  health check catch their own exceptions.
\<close>

datatype attempt_outcome =
    LaunchRaises string
  | AfterLaunchRaises browser string
  | Completed browser

text \<open>What \<open>start\<close> takes from its environment.\<close>

record start_env =
  patcher_raises :: bool
  mkdir_raises :: bool
  fresh_dir :: string
  random_port :: string
  random_ua :: "nat \<Rightarrow> string option"
  outcome :: "nat \<Rightarrow> attempt_outcome"

definition max_retries :: nat where
  "max_retries = 7"

definition transient_keywords :: "string list" where
  "transient_keywords =
     [''eof'', ''connection'', ''port'', ''address already in use'',
      ''chrome'', ''driver'', ''browser'', ''initialization'', ''timeout'']"

definition is_transient :: "string \<Rightarrow> bool" where
  "is_transient e = list_ex (str_contains (lower e)) transient_keywords"

text \<open>The arguments added to the Chrome options, in the order of the source.\<close>

definition chrome_arguments :: "start_env \<Rightarrow> controller \<Rightarrow> string \<Rightarrow> string list" where
  "chrome_arguments env c ua =
     [''--disable-gpu'', ''--no-sandbox'', ''--disable-dev-shm-usage'',
      ''--disable-web-security'', ''--disable-features=VizDisplayCompositor'',
      ''--disable-blink-features=AutomationControlled'',
      ''user-agent='' @ ua]
     @ (case proxy_manager c of
          None \<Rightarrow> []
        | Some pm \<Rightarrow> if is_enabled pm then get_proxy_arguments pm else [])
     @ [''--user-data-dir='' @ (case self_user_data_dir c of None \<Rightarrow> ''None'' | Some p \<Rightarrow> p),
        ''--remote-debugging-port='' @ random_port env,
        ''--disable-background-timer-throttling'',
        ''--disable-backgrounding-occluded-windows'',
        ''--disable-renderer-backgrounding'',
        ''--disable-features=TranslateUI'',
        ''--disable-ipc-flooding-protection'',
        ''--disable-logging'', ''--disable-default-apps'', ''--disable-sync'',
        ''--disable-translate'', ''--disable-background-networking'',
        ''--disable-component-update'', ''--disable-domain-reliability'']"

text \<open>
  One pass through the \<open>try\<close> block: the sleep (from the second pass on), the user
  agent, the launch. \<open>Inl e\<close> is the message of the exception that left the block.
\<close>

definition attempt ::
  "start_env \<Rightarrow> nat \<Rightarrow> nat \<Rightarrow> controller \<Rightarrow> world \<Rightarrow> (string + unit) \<times> controller \<times> world" where
  "attempt env retry base_delay c w =
     (let w1 = (if retry > 0 then emit (Sleep base_delay) w else w);
          ua = get_user_agent (config c) (random_ua env retry);
          c1 = c\<lparr>current_user_agent := Some ua\<rparr>;
          w2 = emit (LaunchChrome (chrome_arguments env c1 ua)) w1
      in case outcome env retry of
           LaunchRaises e \<Rightarrow> (Inl e, c1, w2)
         | AfterLaunchRaises b e \<Rightarrow> (Inl e, c1\<lparr>driver := Some b\<rparr>, w2)
         | Completed b \<Rightarrow> (Inr (), c1\<lparr>driver := Some b\<rparr>, w2))"

text \<open>
  The retry loop \<open>while retry <= max_retries\<close>. A pass that fails increments
  \<open>retry\<close>, doubles \<open>base_delay\<close> when the message holds one of the keywords, and
  raises once \<open>retry > max_retries\<close>.
\<close>

function start_loop ::
  "start_env \<Rightarrow> nat \<Rightarrow> nat \<Rightarrow> controller \<Rightarrow> world \<Rightarrow> (exn + browser option) \<times> controller \<times> world" where
  "start_loop env retry base_delay c w =
     (if retry \<le> max_retries then
        (case attempt env retry base_delay c w of
           (Inr u, c', w') \<Rightarrow> (Inr (driver c'), c', w')
         | (Inl e, c', w') \<Rightarrow>
             if Suc retry > max_retries then (Inl (StartFailed max_retries e), c', w')
             else start_loop env (Suc retry)
                    (if is_transient e then base_delay * 2 else base_delay) c' w')
      else (Inr (driver c), c, w))"
  by pat_completeness auto
termination
  by (relation "measure (\<lambda>(env, retry, base_delay, c, w). Suc max_retries - retry)") auto

declare start_loop.simps [simp del]

text \<open>The message of the exception that ends a failed pass, if the pass fails.\<close>

definition failure_message :: "attempt_outcome \<Rightarrow> string option" where
  "failure_message oc =
     (case oc of
        LaunchRaises e \<Rightarrow> Some e
      | AfterLaunchRaises b e \<Rightarrow> Some e
      | Completed b \<Rightarrow> None)"

text \<open>
  \<open>start\<close>: the one-time driver download under the class-level flag (in a single
  thread the second test of the flag sees what the first saw), the user-data
  directory, then the retry loop from \<open>retry = 0\<close>, \<open>base_delay = 1\<close>.
\<close>

definition start :: "start_env \<Rightarrow> controller \<Rightarrow> world \<Rightarrow> (exn + browser option) \<times> controller \<times> world" where
  "start env c w =
     (let w1 = (if \<not> chromedriver_initialized w then
                  (if patcher_raises env then emit PatcherAuto w
                   else (emit PatcherAuto w)\<lparr>chromedriver_initialized := True\<rparr>)
                else w)
      in case user_data_dir (config c) of
           Some p \<Rightarrow> start_loop env 0 1 (c\<lparr>self_user_data_dir := Some p\<rparr>) w1
         | None \<Rightarrow>
             if mkdir_raises env then
               (Inl (OSError ''mkdir''), c\<lparr>self_user_data_dir := Some (fresh_dir env)\<rparr>, w1)
             else start_loop env 0 1 (c\<lparr>self_user_data_dir := Some (fresh_dir env)\<rparr>)
                    (w1\<lparr>dirs := insert (fresh_dir env) (dirs w1)\<rparr>))"

text \<open>\<open>shutil.rmtree(p, ignore_errors=True)\<close>.\<close>

definition rmtree :: "string \<Rightarrow> world \<Rightarrow> world" where
  "rmtree p w =
     (let w1 = emit (Rmtree p) w
      in if p \<in> undeletable w1 then w1 else w1\<lparr>dirs := dirs w1 - {p}\<rparr>)"

text \<open>
  \<open>Path.exists()\<close>: true for a directory that is found, an \<open>OSError\<close> for a path that
  cannot be examined, false otherwise.
\<close>

definition path_exists :: "world \<Rightarrow> string \<Rightarrow> exn + bool" where
  "path_exists w p =
     (if p \<in> dirs w then Inr True
      else if p \<in> unstatable w then Inl (OSError ''stat'')
      else Inr False)"

text \<open>
  \<open>stop\<close>. The \<open>try\<close> block probes \<open>current_url\<close> and then quits; an exception of
  either is caught, and \<open>finally\<close> clears the handle. Then the condition
  \<open>self._user_data_dir and self._user_data_dir.exists()\<close> is evaluated, outside any
  \<open>try\<close>: an exception of \<open>exists()\<close> leaves \<open>stop\<close>. Only the removal itself is
  inside a \<open>try\<close>.
\<close>

definition stop :: "controller \<Rightarrow> world \<Rightarrow> (exn + unit) \<times> controller \<times> world" where
  "stop c w =
     (let (c1, w1) =
            (case driver c of
               None \<Rightarrow> (c, w)
             | Some b \<Rightarrow>
                 (case driver_current_url b of
                    Inl e \<Rightarrow> (c\<lparr>driver := None\<rparr>, emit Probe w)
                  | Inr u \<Rightarrow>
                      (case driver_quit b of
                         Inl e \<Rightarrow> (c\<lparr>driver := None\<rparr>, emit Quit (emit Probe w))
                       | Inr u' \<Rightarrow> (c\<lparr>driver := None\<rparr>, emit Quit (emit Probe w)))))
      in case self_user_data_dir c1 of
           None \<Rightarrow> (Inr (), c1, w1)
         | Some p \<Rightarrow>
             (case path_exists w1 p of
                Inl e \<Rightarrow> (Inl e, c1, w1)
              | Inr found \<Rightarrow> if found then (Inr (), c1, rmtree p w1) else (Inr (), c1, w1)))"

definition is_active :: "controller \<Rightarrow> bool" where
  "is_active c =
     (case driver c of
        None \<Rightarrow> False
      | Some b \<Rightarrow> (case driver_current_url b of Inl e \<Rightarrow> False | Inr u \<Rightarrow> True))"

text \<open>The events a call added to the trace.\<close>

definition new_events :: "world \<Rightarrow> world \<Rightarrow> event list" where
  "new_events w w' = drop (length (events w)) (events w')"

text \<open>The number of \<open>uc.Chrome\<close> launches in a trace.\<close>

definition is_launch :: "event \<Rightarrow> bool" where
  "is_launch e = (case e of LaunchChrome args \<Rightarrow> True | _ \<Rightarrow> False)"

definition launches :: "event list \<Rightarrow> nat" where
  "launches es = length (filter is_launch es)"

section \<open>Commands of the driver\<close>

text \<open>
  The commands of the WebDriver handle that the managers call. A page load is taken
  not to change the cookie jar, and \<open>add_cookie\<close> appends the cookie it accepts.
\<close>

definition driver_get_cookies :: "browser \<Rightarrow> exn + cookie list" where
  "driver_get_cookies b =
     (if responsive b then Inr (jar b) else Inl (WebDriverException ''unresponsive''))"





definition driver_window_handles :: "browser \<Rightarrow> exn + handle list" where
  "driver_window_handles b =
     (if responsive b then Inr (handles b) else Inl (WebDriverException ''unresponsive''))"

definition driver_switch_to_window :: "browser \<Rightarrow> handle \<Rightarrow> exn + browser" where
  "driver_switch_to_window b h =
     (if \<not> responsive b then Inl (WebDriverException ''unresponsive'')
      else if h \<in> set (handles b) then Inr (b\<lparr>focus := Some h\<rparr>)
      else Inl NoSuchWindowException)"

text \<open>\<open>close\<close> closes the focused window, after which no window has the focus.\<close>

definition driver_close :: "browser \<Rightarrow> exn + browser" where
  "driver_close b =
     (if \<not> responsive b then Inl (WebDriverException ''unresponsive'')
      else (case focus b of
              None \<Rightarrow> Inl NoSuchWindowException
            | Some h \<Rightarrow>
                if h \<in> stuck b then Inl (WebDriverException ''close failed'')
                else Inr (b\<lparr>handles := removeAll h (handles b), focus := None\<rparr>)))"

section \<open>Windows (window.py)\<close>

record WindowManager =
  wm_driver :: "browser option"
  original_handle :: "handle option"
  wm_log :: "string list"

definition wm_say :: "string \<Rightarrow> WindowManager \<Rightarrow> WindowManager" where
  "wm_say msg wm = wm\<lparr>wm_log := wm_log wm @ [msg]\<rparr>"

text \<open>\<open>WindowManager.set_driver\<close>; reading the handles can raise.\<close>

definition set_driver :: "WindowManager \<Rightarrow> browser \<Rightarrow> (exn + unit) \<times> WindowManager" where
  "set_driver wm b =
     (let wm1 = wm\<lparr>wm_driver := Some b\<rparr>
      in case driver_window_handles b of
           Inl e \<Rightarrow> (Inl e, wm1)
         | Inr hs \<Rightarrow>
             (case hs of
                [] \<Rightarrow> (Inr (), wm1)
              | h # rest \<Rightarrow> (Inr (), wm1\<lparr>original_handle := Some h\<rparr>)))"

text \<open>
  \<open>ensure_active\<close>. Only \<open>NoSuchWindowException\<close> is caught (the result is then
  \<open>False\<close>); any other exception leaves the method. \<open>adopt_first\<close> is the
  \<open>elif\<close>/\<open>else\<close> part: the original is gone, the first handle becomes the original.
\<close>

definition adopt_first :: "WindowManager \<Rightarrow> browser \<Rightarrow> (exn + bool) \<times> WindowManager" where
  "adopt_first wm b =
     (case driver_window_handles b of
        Inl e \<Rightarrow> (Inl e, wm)
      | Inr hs \<Rightarrow>
          (case hs of
             [] \<Rightarrow> (Inr False, wm_say ''No windows available'' wm)
           | h # rest \<Rightarrow>
               (case driver_switch_to_window b h of
                  Inl NoSuchWindowException \<Rightarrow> (Inr False, wm_say ''Window no longer exists'' wm)
                | Inl e \<Rightarrow> (Inl e, wm)
                | Inr b' \<Rightarrow> (Inr True, wm\<lparr>wm_driver := Some b', original_handle := Some h\<rparr>))))"

definition ensure_active :: "WindowManager \<Rightarrow> (exn + bool) \<times> WindowManager" where
  "ensure_active wm =
     (case wm_driver wm of
        None \<Rightarrow> (Inr False, wm_say ''No driver available for window management'' wm)
      | Some b \<Rightarrow>
          if truthy (original_handle wm) then
            (case driver_window_handles b of
               Inl e \<Rightarrow> (Inl e, wm)
             | Inr hs \<Rightarrow>
                 if the (original_handle wm) \<in> set hs then
                   (case driver_switch_to_window b (the (original_handle wm)) of
                      Inl NoSuchWindowException \<Rightarrow>
                        (Inr False, wm_say ''Window no longer exists'' wm)
                    | Inl e \<Rightarrow> (Inl e, wm)
                    | Inr b' \<Rightarrow> (Inr True, wm\<lparr>wm_driver := Some b'\<rparr>))
                 else adopt_first wm b)
          else adopt_first wm b)"

text \<open>
  The loop of \<open>close_extra_windows\<close> over the handles read before it: a handle other
  than the original is switched to and closed; an exception of either call is logged
  and the loop goes on with the next handle.
\<close>

fun close_loop :: "handle \<Rightarrow> handle list \<Rightarrow> browser \<Rightarrow> nat \<Rightarrow> string list \<Rightarrow> browser \<times> nat \<times> string list" where
  "close_loop orig [] b closed_count lg = (b, closed_count, lg)"
| "close_loop orig (h # hs) b closed_count lg =
     (if h \<noteq> orig then
        (case driver_switch_to_window b h of
           Inl e \<Rightarrow> close_loop orig hs b closed_count (lg @ [''Failed to close window '' @ h])
         | Inr b1 \<Rightarrow>
             (case driver_close b1 of
                Inl e \<Rightarrow> close_loop orig hs b1 closed_count (lg @ [''Failed to close window '' @ h])
              | Inr b2 \<Rightarrow> close_loop orig hs b2 (Suc closed_count) lg))
      else close_loop orig hs b closed_count lg)"

definition close_extra_windows :: "WindowManager \<Rightarrow> nat \<times> WindowManager" where
  "close_extra_windows wm =
     (case wm_driver wm of
        None \<Rightarrow> (0, wm_say ''No driver available'' wm)
      | Some b \<Rightarrow>
          if \<not> truthy (original_handle wm) then (0, wm)
          else (case driver_window_handles b of
                  Inl e \<Rightarrow> (0, wm_say ''Error closing extra windows'' wm)
                | Inr current_handles \<Rightarrow>
                    (case close_loop (the (original_handle wm)) current_handles b 0 (wm_log wm) of
                       (b', closed_count, lg) \<Rightarrow>
                         (case ensure_active (wm\<lparr>wm_driver := Some b', wm_log := lg\<rparr>) of
                            (Inl e, wm') \<Rightarrow> (closed_count, wm_say ''Error closing extra windows'' wm')
                          | (Inr ok, wm') \<Rightarrow>
                              if closed_count > 0
                              then (closed_count, wm_say ''Closed extra window(s)'' wm')
                              else (closed_count, wm'))))) "

section \<open>Cookies (cookies.py)\<close>












section \<open>The session bridge (session.py)\<close>

text \<open>
  The HTTP session of the \<open>requests\<close> library: its cookie jar, its headers and its
  proxy mapping. The jar keeps one cookie for each domain, path and name; it is the
  map from these keys to the value kept. A new session has an empty jar, the library's
  own User-Agent header and no proxies.
\<close>

type_synonym cookie_key = "string \<times> string \<times> jval"

record http_session =
  cookie_store :: "cookie_key \<Rightarrow> jval option"
  headers :: "(string \<times> string) list"
  session_proxies :: "(string \<times> string) list"

definition new_session :: http_session where
  "new_session =
     \<lparr>cookie_store = (\<lambda>k. None),
      headers = [(''User-Agent'', ''python-requests/2.32.3''), (''Accept-Encoding'', ''gzip, deflate''),
                 (''Accept'', ''*/*''), (''Connection'', ''keep-alive'')],
      session_proxies = []\<rparr>"

text \<open>\<open>s.endswith(p)\<close>.\<close>

definition endswith :: "string \<Rightarrow> string \<Rightarrow> bool" where
  "endswith s p = (drop (length s - length p) s = p)"

text \<open>
  \<open>RequestsCookieJar.set_cookie\<close>: in a string value that starts and ends with a
  double quote, every backslash followed by a double quote is removed.
\<close>

definition unquote_value :: "jval \<Rightarrow> jval" where
  "unquote_value v =
     (case v of
        JStr t \<Rightarrow>
          if startswith t [CHR 0x22] \<and> endswith t [CHR 0x22]
          then JStr (replace_str [CHR 0x5C, CHR 0x22] [] t)
          else JStr t
      | _ \<Rightarrow> v)"

text \<open>
  \<open>remove_cookie_by_name(jar, name, domain=domain)\<close>: the cookies of that name are
  removed, on every domain when \<open>domain\<close> is \<open>None\<close>, on that domain otherwise.
\<close>

definition remove_cookie_by_name ::
  "jval \<Rightarrow> jval option \<Rightarrow> (cookie_key \<Rightarrow> jval option) \<Rightarrow> (cookie_key \<Rightarrow> jval option)" where
  "remove_cookie_by_name name domain st =
     (\<lambda>(d, p, n).
        if n = name \<and>
           (case domain of
              None \<Rightarrow> True
            | Some JNull \<Rightarrow> True
            | Some (JStr d') \<Rightarrow> d' = d
            | Some other \<Rightarrow> False)
        then None
        else st (d, p, n))"

text \<open>
  \<open>session.cookies.set(name, value, domain=domain)\<close> as \<open>requests\<close> does it. A value
  \<open>None\<close> removes the cookies of that name. Otherwise \<open>create_cookie\<close> puts the given
  domain in the place of its default and calls \<open>startswith\<close> on it, which raises
  \<open>AttributeError\<close> when the domain is \<open>None\<close> or not a string; the path is the
  default \<open>/\<close>, and the cookie replaces the one the jar holds for that domain, path
  and name.
\<close>

definition jar_set ::
  "jval \<Rightarrow> jval \<Rightarrow> jval option \<Rightarrow> (cookie_key \<Rightarrow> jval option) \<Rightarrow> exn + (cookie_key \<Rightarrow> jval option)" where
  "jar_set name value domain st =
     (if value = JNull then Inr (remove_cookie_by_name name domain st)
      else (case domain of
              Some (JStr d) \<Rightarrow> Inr (st((d, ''/'', name) := Some (unquote_value value)))
            | _ \<Rightarrow> Inl (AttributeError ''startswith'')))"

text \<open>
  The loop over the browser's cookies: \<open>cookie['name']\<close> and \<open>cookie['value']\<close> raise
  \<open>KeyError\<close> on a cookie without them; \<open>cookie.get('domain')\<close> gives \<open>None\<close> for a
  cookie without domain, and an exception of \<open>set\<close> leaves the method.
\<close>

fun copy_cookies :: "cookie list \<Rightarrow> http_session \<Rightarrow> exn + http_session" where
  "copy_cookies [] s = Inr s"
| "copy_cookies (ck # cks) s =
     (case map_of ck ''name'' of
        None \<Rightarrow> Inl (KeyError ''name'')
      | Some n \<Rightarrow>
          (case map_of ck ''value'' of
             None \<Rightarrow> Inl (KeyError ''value'')
           | Some v \<Rightarrow>
               (case jar_set n v (map_of ck ''domain'') (cookie_store s) of
                  Inl e \<Rightarrow> Inl e
                | Inr st \<Rightarrow> copy_cookies cks (s\<lparr>cookie_store := st\<rparr>))))"

definition get_requests_session :: "controller \<Rightarrow> exn + http_session" where
  "get_requests_session c =
     (case driver c of
        None \<Rightarrow> Inl BrowserNotStarted
      | Some b \<Rightarrow>
          (case driver_get_cookies b of
             Inl e \<Rightarrow> Inl e
           | Inr selenium_cookies \<Rightarrow>
               (case copy_cookies selenium_cookies new_session of
                  Inl e \<Rightarrow> Inl e
                | Inr s1 \<Rightarrow>
                    (let s2 = (if truthy (current_user_agent c)
                               then s1\<lparr>headers := dict_update (headers s1)
                                       [(''User-Agent'', the (current_user_agent c))]\<rparr>
                               else s1)
                     in case proxy_manager c of
                          None \<Rightarrow> Inr s2
                        | Some pm \<Rightarrow>
                            if is_enabled pm then
                              (case get_requests_proxies pm of
                                 None \<Rightarrow> Inr s2
                               | Some d \<Rightarrow>
                                   if d = [] then Inr s2
                                   else Inr (s2\<lparr>session_proxies := dict_update (session_proxies s2) d\<rparr>))
                            else Inr s2))))"

text \<open>
  A cookie as WebDriver serialises it has a name, a value and a domain, all strings.
  \<open>jar_key\<close> is the key under which the jar keeps such a cookie and \<open>jar_value\<close> the
  value it keeps.
\<close>

definition is_str :: "jval option \<Rightarrow> bool" where
  "is_str v = (case v of Some (JStr t) \<Rightarrow> True | _ \<Rightarrow> False)"

definition well_formed_cookie :: "cookie \<Rightarrow> bool" where
  "well_formed_cookie ck =
     (is_str (map_of ck ''name'') \<and> is_str (map_of ck ''value'') \<and> is_str (map_of ck ''domain''))"

definition jar_key :: "cookie \<Rightarrow> cookie_key" where
  "jar_key ck =
     ((case map_of ck ''domain'' of Some (JStr d) \<Rightarrow> d | _ \<Rightarrow> []),
      ''/'',
      (case map_of ck ''name'' of Some n \<Rightarrow> n | None \<Rightarrow> JNull))"

definition jar_value :: "cookie \<Rightarrow> jval" where
  "jar_value ck = unquote_value (case map_of ck ''value'' of Some v \<Rightarrow> v | None \<Rightarrow> JNull)"

section \<open>Example inputs\<close>

text \<open>Concrete inputs at which the theorems below are instantiated.\<close>

definition always_failing_env :: start_env where
  "always_failing_env =
     \<lparr>patcher_raises = False, mkdir_raises = False,
      fresh_dir = ''/tmp/chrome_scraper_41_7_9300'', random_port = ''9301'',
      random_ua = (\<lambda>i. None),
      outcome = (\<lambda>i. LaunchRaises ''connection refused'')\<rparr>"

definition plain_config :: BrowserConfig where
  "plain_config = \<lparr>user_agent = None, proxy = None, user_data_dir = None\<rparr>"

definition profile_config :: BrowserConfig where
  "profile_config = \<lparr>user_agent = None, proxy = None, user_data_dir = Some ''/home/u/profile''\<rparr>"

definition fresh_world :: world where
  "fresh_world =
     \<lparr>chromedriver_initialized = False, dirs = {}, unstatable = {}, undeletable = {}, events = []\<rparr>"

definition profile_world :: world where
  "profile_world =
     \<lparr>chromedriver_initialized = True, dirs = {''/home/u/profile''}, unstatable = {},
      undeletable = {}, events = []\<rparr>"

definition live_browser :: browser where
  "live_browser =
     \<lparr>responsive = True, quit_raises = False, nav_raises = False,
      jar = [[(''name'', JStr ''sid''), (''value'', JStr ''abc'')]],
      rejects = (\<lambda>ck. False),
      handles = [''w0'', ''w1'', ''w2''], focus = Some ''w2'', stuck = {}\<rparr>"

definition three_windows :: WindowManager where
  "three_windows = \<lparr>wm_driver = Some live_browser, original_handle = Some ''w0'', wm_log = []\<rparr>"



definition tor_config :: BrowserConfig where
  "tor_config =
     \<lparr>user_agent = None,
      proxy = Some \<lparr>enabled = True, type = ''tor'', address = ''127.0.0.1:8080'',
                    username = None, password = None\<rparr>,
      user_data_dir = None\<rparr>"


definition long_path :: string where
  "long_path = ''/tmp/'' @ replicate 300 (CHR ''a'')"

definition long_path_config :: BrowserConfig where
  "long_path_config = \<lparr>user_agent = None, proxy = None, user_data_dir = Some long_path\<rparr>"

definition long_path_world :: world where
  "long_path_world =
     \<lparr>chromedriver_initialized = True, dirs = {}, unstatable = {long_path},
      undeletable = {}, events = []\<rparr>"

definition session_browser :: browser where
  "session_browser =
     \<lparr>responsive = True, quit_raises = False, nav_raises = False,
      jar = [[(''name'', JStr ''sid''), (''value'', JStr ''abc''), (''domain'', JStr ''example.com'')]],
      rejects = (\<lambda>ck. False),
      handles = [''w0''], focus = Some ''w0'', stuck = {}\<rparr>"

definition same_name_browser :: browser where
  "same_name_browser =
     \<lparr>responsive = True, quit_raises = False, nav_raises = False,
      jar = [[(''name'', JStr ''sid''), (''value'', JStr ''A''),
              (''domain'', JStr ''.example.com''), (''path'', JStr ''/a'')],
             [(''name'', JStr ''sid''), (''value'', JStr ''B''),
              (''domain'', JStr ''.example.com''), (''path'', JStr ''/b'')]],
      rejects = (\<lambda>ck. False),
      handles = [''w0''], focus = Some ''w0'', stuck = {}\<rparr>"

definition started_controller :: controller where
  "started_controller =
     (controller_init tor_config)
       \<lparr>driver := Some session_browser, current_user_agent := Some default_user_agent\<rparr>"

definition same_name_controller :: controller where
  "same_name_controller =
     (controller_init plain_config)
       \<lparr>driver := Some same_name_browser, current_user_agent := Some default_user_agent\<rparr>"

definition no_domain_controller :: controller where
  "no_domain_controller =
     (controller_init plain_config)
       \<lparr>driver := Some live_browser, current_user_agent := Some default_user_agent\<rparr>"

section \<open>Proxy resolution: theorems\<close>

lemma replace_tor_url:
  "replace_str ''socks5://'' ''socks5://''
     (replace_str ''socks5h://'' ''socks5://'' ''socks5h://127.0.0.1:9150'')
   = ''socks5://127.0.0.1:9150''"
  by (simp add: startswith_def)

text \<open>
  Claim C6. An enabled configuration whose type is \<open>tor\<close> (in any letter case, as the
  source lower-cases the type) resolves to the fixed local endpoint 127.0.0.1:9150,
  whatever the address and the credentials are: the client mapping holds it under the
  \<open>socks5h\<close> scheme for both keys, and the single launch argument holds it under the
  plain \<open>socks5\<close> scheme.
\<close>

theorem tor_fixed_endpoint:
  assumes "enabled c" and "lower (type c) = ''tor''"
  shows "get_requests_proxies (ProxyManager_init (Some c)) =
           Some [(''http'', ''socks5h://127.0.0.1:9150''), (''https'', ''socks5h://127.0.0.1:9150'')]
       \<and> get_proxy_arguments (ProxyManager_init (Some c)) =
           [''--proxy-server=socks5://127.0.0.1:9150'']
       \<and> is_enabled (ProxyManager_init (Some c))"
proof -
  have init: "ProxyManager_init (Some c) =
      \<lparr>pm_config = Some c,
       proxies = Some [(''http'', ''socks5h://127.0.0.1:9150''), (''https'', ''socks5h://127.0.0.1:9150'')]\<rparr>"
    using assms by (simp add: ProxyManager_init_def setup_proxies_def)
  have url: "dict_get [(''http'', ''socks5h://127.0.0.1:9150''), (''https'', ''socks5h://127.0.0.1:9150'')]
               ''http'' '''' = ''socks5h://127.0.0.1:9150''"
    by (simp add: dict_get_def)
  have pre: "startswith ''socks5h://127.0.0.1:9150'' ''socks5''"
    by (simp add: startswith_def)
  have args: "get_proxy_arguments (ProxyManager_init (Some c)) =
      [''--proxy-server=socks5://127.0.0.1:9150'']"
    unfolding init get_proxy_arguments_def using assms(1)
    by (simp add: url pre replace_tor_url del: replace_str.simps)
  show ?thesis
    using args assms(1) by (simp add: init get_requests_proxies_def is_enabled_def)
qed

theorem tor_fixed_endpoint_witness:
  "get_requests_proxies (ProxyManager_init (Some
      \<lparr>enabled = True, type = ''Tor'', address = ''10.0.0.1:3128'',
       username = Some ''u'', password = None\<rparr>)) =
     Some [(''http'', ''socks5h://127.0.0.1:9150''), (''https'', ''socks5h://127.0.0.1:9150'')]
   \<and> get_proxy_arguments (ProxyManager_init (Some
      \<lparr>enabled = True, type = ''Tor'', address = ''10.0.0.1:3128'',
       username = Some ''u'', password = None\<rparr>)) =
     [''--proxy-server=socks5://127.0.0.1:9150'']"
  using tor_fixed_endpoint [of "\<lparr>enabled = True, type = ''Tor'', address = ''10.0.0.1:3128'',
       username = Some ''u'', password = None\<rparr>"]
  by (simp add: lower_def lower_char_def)

section \<open>Proxies: unknown types and credentials\<close>

text \<open>
  Claim C10. An enabled configuration whose lower-cased type is none of \<open>http\<close>,
  \<open>socks5\<close> and \<open>tor\<close> resolves nothing and raises nothing: the manager is built,
  its mapping stays \<open>None\<close>, \<open>is_enabled\<close> is false, there are no launch arguments and
  \<open>get_requests_proxies\<close> returns \<open>None\<close>.
\<close>

theorem unknown_type_silently_disabled:
  assumes "enabled c" and "lower (type c) \<notin> {''http'', ''socks5'', ''tor''}"
  shows "proxies (ProxyManager_init (Some c)) = None
       \<and> \<not> is_enabled (ProxyManager_init (Some c))
       \<and> get_proxy_arguments (ProxyManager_init (Some c)) = []
       \<and> get_requests_proxies (ProxyManager_init (Some c)) = None"
  using assms
  by (simp add: ProxyManager_init_def setup_proxies_def is_enabled_def
      get_proxy_arguments_def get_requests_proxies_def)

theorem unknown_type_silently_disabled_witness:
  "\<not> is_enabled (ProxyManager_init (Some
      \<lparr>enabled = True, type = ''FTP'', address = ''10.0.0.1:21'', username = None, password = None\<rparr>))
   \<and> get_proxy_arguments (ProxyManager_init (Some
      \<lparr>enabled = True, type = ''FTP'', address = ''10.0.0.1:21'', username = None, password = None\<rparr>)) = []
   \<and> get_requests_proxies (ProxyManager_init (Some
      \<lparr>enabled = True, type = ''FTP'', address = ''10.0.0.1:21'', username = None, password = None\<rparr>)) = None"
  using unknown_type_silently_disabled [of "\<lparr>enabled = True, type = ''FTP'', address = ''10.0.0.1:21'', username = None, password = None\<rparr>"]
  by (simp add: lower_def lower_char_def)

text \<open>
  Claim C7. The claim asks for the credentials in the URL for \<open>http\<close> and for
  \<open>socks5\<close>. The \<open>socks5\<close> branch of \<open>_setup_proxies\<close> never reads the user name and
  the password: at a \<open>socks5\<close> configuration with both of them the mapping is built from
  the address alone.
\<close>

theorem socks5_credentials_dropped:
  "get_requests_proxies (ProxyManager_init (Some
      \<lparr>enabled = True, type = ''socks5'', address = ''10.0.0.1:1080'',
       username = Some ''u'', password = Some ''p''\<rparr>))
   = Some [(''http'', ''socks5://10.0.0.1:1080''), (''https'', ''socks5://10.0.0.1:1080'')]"
  by (simp add: get_requests_proxies_def ProxyManager_init_def setup_proxies_def lower_def lower_char_def)

text \<open>The \<open>http\<close> branch does embed them.\<close>

lemma http_credentials_embedded:
  "get_requests_proxies (ProxyManager_init (Some
      \<lparr>enabled = True, type = ''http'', address = ''10.0.0.1:3128'',
       username = Some ''u'', password = Some ''p''\<rparr>))
   = Some [(''http'', ''http://u:p@10.0.0.1:3128''), (''https'', ''https://u:p@10.0.0.1:3128'')]"
  by (simp add: get_requests_proxies_def ProxyManager_init_def setup_proxies_def lower_def lower_char_def truthy_def)

section \<open>The retry loop\<close>

lemma launches_append: "launches (xs @ ys) = launches xs + launches ys"
  by (simp add: launches_def)

lemma new_events_append: "events w' = events w @ es \<Longrightarrow> new_events w w' = es"
  by (simp add: new_events_def)

lemma attempt_events:
  "attempt env retry bd c w = (r, c', w') \<Longrightarrow>
     \<exists>es. events w' = events w @ es \<and> launches es = 1"
  by (cases "outcome env retry")
     (auto simp: attempt_def Let_def emit_def launches_def is_launch_def)

lemma attempt_fails:
  assumes "failure_message (outcome env retry) = Some e"
  shows "\<exists>c' w'. attempt env retry bd c w = (Inl e, c', w')"
  using assms by (cases "outcome env retry") (auto simp: attempt_def Let_def failure_message_def)

lemma start_loop_all_fail:
  assumes fail: "\<forall>i. failure_message (outcome env i) \<noteq> None"
  shows "k = max_retries - retry \<Longrightarrow> retry \<le> max_retries \<Longrightarrow>
         \<exists>c' w' es. start_loop env retry bd c w =
             (Inl (StartFailed max_retries (the (failure_message (outcome env max_retries)))), c', w')
           \<and> events w' = events w @ es \<and> launches es = Suc k"
proof (induction k arbitrary: retry bd c w)
  case 0
  then have r: "retry = max_retries" by simp
  from fail obtain e where e: "failure_message (outcome env retry) = Some e" by auto
  from attempt_fails [OF e] obtain c' w' where a: "attempt env retry bd c w = (Inl e, c', w')"
    by blast
  from attempt_events [OF a] obtain es where es: "events w' = events w @ es" "launches es = 1"
    by blast
  have "start_loop env retry bd c w = (Inl (StartFailed max_retries e), c', w')"
    using a r by (subst start_loop.simps) simp
  with e es r show ?case by auto
next
  case (Suc k)
  then have lt: "Suc retry \<le> max_retries" and k: "k = max_retries - Suc retry" by simp_all
  from fail obtain e where e: "failure_message (outcome env retry) = Some e" by auto
  from attempt_fails [OF e] obtain c1 w1 where a: "attempt env retry bd c w = (Inl e, c1, w1)"
    by blast
  from attempt_events [OF a] obtain es1 where es1: "events w1 = events w @ es1" "launches es1 = 1"
    by blast
  let ?bd = "if is_transient e then bd * 2 else bd"
  from Suc.IH [OF k lt, of ?bd c1 w1] obtain c' w' es where
    rec: "start_loop env (Suc retry) ?bd c1 w1 =
            (Inl (StartFailed max_retries (the (failure_message (outcome env max_retries)))), c', w')"
    and es: "events w' = events w1 @ es" "launches es = Suc k"
    by blast
  have "start_loop env retry bd c w = start_loop env (Suc retry) ?bd c1 w1"
    using a lt by (subst start_loop.simps) simp
  with rec have res: "start_loop env retry bd c w =
      (Inl (StartFailed max_retries (the (failure_message (outcome env max_retries)))), c', w')"
    by simp
  have "events w' = events w @ (es1 @ es)" using es1 es by simp
  moreover have "launches (es1 @ es) = Suc (Suc k)" using es1 es by (simp add: launches_append)
  ultimately show ?case using res by blast
qed

lemma start_loop_keeps_dir:
  "start_loop env retry bd c w = (r, c', w') \<Longrightarrow> self_user_data_dir c' = self_user_data_dir c"
proof (induction env retry bd c w arbitrary: r c' w' rule: start_loop.induct)
  case (1 env retry bd c w)
  show ?case
  proof (cases "retry \<le> max_retries")
    case False
    with "1.prems" show ?thesis by (subst (asm) start_loop.simps) simp
  next
    case True
    obtain x c1 w1 where a: "attempt env retry bd c w = (x, c1, w1)" by (cases "attempt env retry bd c w") auto
    have d1: "self_user_data_dir c1 = self_user_data_dir c"
      using a by (cases "outcome env retry") (auto simp: attempt_def Let_def)
    show ?thesis
    proof (cases x)
      case (Inr u)
      with "1.prems" True a d1 show ?thesis by (subst (asm) start_loop.simps) auto
    next
      case (Inl e)
      show ?thesis
      proof (cases "Suc retry > max_retries")
        case True
        with "1.prems" \<open>retry \<le> max_retries\<close> a d1 Inl show ?thesis
          by (subst (asm) start_loop.simps) auto
      next
        case False
        with "1.prems" \<open>retry \<le> max_retries\<close> a Inl
        have "start_loop env (Suc retry) (if is_transient e then bd * 2 else bd) c1 w1 = (r, c', w')"
          by (subst (asm) start_loop.simps) auto
        from "1.IH" [OF \<open>retry \<le> max_retries\<close> a [symmetric] Inl refl False this] d1
        show ?thesis by simp
      qed
    qed
  qed
qed

lemma start_all_fail:
  assumes fail: "\<forall>i. failure_message (outcome env i) \<noteq> None"
      and dir: "user_data_dir (config c) = None \<longrightarrow> \<not> mkdir_raises env"
  shows "fst (start env c w) = Inl (StartFailed 7 (the (failure_message (outcome env 7))))
       \<and> launches (new_events w (snd (snd (start env c w)))) = 8"
proof -
  define w1 where "w1 =
     (if \<not> chromedriver_initialized w then
        (if patcher_raises env then emit PatcherAuto w
         else (emit PatcherAuto w)\<lparr>chromedriver_initialized := True\<rparr>)
      else w)"
  have ev1: "\<exists>es0. events w1 = events w @ es0 \<and> launches es0 = 0"
    by (auto simp: w1_def emit_def launches_def is_launch_def)
  then obtain es0 where es0: "events w1 = events w @ es0" "launches es0 = 0" by blast
  define c2 where "c2 = (case user_data_dir (config c) of
      Some p \<Rightarrow> c\<lparr>self_user_data_dir := Some p\<rparr>
    | None \<Rightarrow> c\<lparr>self_user_data_dir := Some (fresh_dir env)\<rparr>)"
  define w2 where "w2 = (case user_data_dir (config c) of
      Some p \<Rightarrow> w1
    | None \<Rightarrow> w1\<lparr>dirs := insert (fresh_dir env) (dirs w1)\<rparr>)"
  have st: "start env c w = start_loop env 0 1 c2 w2"
    using dir by (simp add: start_def Let_def w1_def c2_def w2_def split: option.splits)
  have ev2: "events w2 = events w1" by (simp add: w2_def split: option.splits)
  from start_loop_all_fail [OF fail, of max_retries 0 1 c2 w2] obtain c' w' es where
    r: "start_loop env 0 1 c2 w2 =
          (Inl (StartFailed max_retries (the (failure_message (outcome env max_retries)))), c', w')"
    and es: "events w' = events w2 @ es" "launches es = Suc max_retries"
    by auto
  have "events w' = events w @ (es0 @ es)" using es ev2 es0 by simp
  then have "new_events w w' = es0 @ es" by (rule new_events_append)
  then have "launches (new_events w w') = 8"
    using es es0 by (simp add: launches_append max_retries_def)
  then show ?thesis using st r by (simp add: max_retries_def)
qed

text \<open>
  Claim C2, amended. When every pass of the retry loop fails (and the user-data
  directory could be set up), \<open>start\<close> launches exactly eight times, once for each value
  0..7 of \<open>retry\<close>, and then raises the exception that carries the retry limit 7 and the
  message of the last failure. There is no ninth launch.
\<close>

theorem start_makes_eight_attempts:
  assumes "\<forall>i. failure_message (outcome env i) \<noteq> None"
      and "user_data_dir (config c) = None \<longrightarrow> \<not> mkdir_raises env"
  shows "fst (start env c w) = Inl (StartFailed 7 (the (failure_message (outcome env 7))))
       \<and> launches (new_events w (snd (snd (start env c w)))) = 8"
  using assms by (rule start_all_fail)

theorem start_makes_eight_attempts_witness:
  "fst (start always_failing_env (controller_init plain_config) fresh_world)
     = Inl (StartFailed 7 ''connection refused'')
   \<and> launches (new_events fresh_world
        (snd (snd (start always_failing_env (controller_init plain_config) fresh_world)))) = 8"
  using start_makes_eight_attempts [of always_failing_env "controller_init plain_config" fresh_world]
  by (simp add: always_failing_env_def failure_message_def)

text \<open>
  The claim as stated (at most seven launches, never an eighth) fails: with a launch
  that always raises, the eighth launch happens before the exception is raised.
\<close>

theorem start_eighth_launch_counterexample:
  "fst (start always_failing_env (controller_init plain_config) fresh_world)
     = Inl (StartFailed 7 ''connection refused'')
   \<and> \<not> launches (new_events fresh_world
        (snd (snd (start always_failing_env (controller_init plain_config) fresh_world)))) \<le> 7"
  using start_all_fail [of always_failing_env "controller_init plain_config" fresh_world]
  by (simp add: always_failing_env_def failure_message_def)

lemma start_sets_supplied_dir:
  assumes "user_data_dir (config c) = Some p"
  shows "self_user_data_dir (fst (snd (start env c w))) = Some p"
proof -
  obtain r c' w' where s: "start env c w = (r, c', w')" by (cases "start env c w") auto
  then obtain w1 where "start_loop env 0 1 (c\<lparr>self_user_data_dir := Some p\<rparr>) w1 = (r, c', w')"
    using assms by (simp add: start_def Let_def)
  from start_loop_keeps_dir [OF this] show ?thesis using s by simp
qed

section \<open>Teardown\<close>

lemma stop_events:
  "events (snd (snd (stop c w))) = events w @
     (case driver c of None \<Rightarrow> [] | Some b \<Rightarrow> if responsive b then [Probe, Quit] else [Probe])
     @ (case self_user_data_dir c of None \<Rightarrow> [] | Some p \<Rightarrow> if p \<in> dirs w then [Rmtree p] else [])"
  by (auto simp: stop_def Let_def rmtree_def emit_def driver_current_url_def driver_quit_def
      path_exists_def split: option.splits sum.splits prod.splits if_splits)

lemma stop_new_events:
  "new_events w (snd (snd (stop c w))) =
     (case driver c of None \<Rightarrow> [] | Some b \<Rightarrow> if responsive b then [Probe, Quit] else [Probe])
     @ (case self_user_data_dir c of None \<Rightarrow> [] | Some p \<Rightarrow> if p \<in> dirs w then [Rmtree p] else [])"
  by (rule new_events_append) (rule stop_events)

lemma stop_result:
  "fst (stop c w) =
     (case self_user_data_dir c of
        None \<Rightarrow> Inr ()
      | Some p \<Rightarrow> if p \<notin> dirs w \<and> p \<in> unstatable w then Inl (OSError ''stat'') else Inr ())"
  by (auto simp: stop_def Let_def emit_def path_exists_def
      split: option.splits sum.splits prod.splits if_splits)

lemma stop_controller:
  "fst (snd (stop c w)) = c\<lparr>driver := None\<rparr>"
  by (cases "driver c")
     (auto simp: stop_def Let_def split: option.splits sum.splits prod.splits)

lemma stop_dirs:
  "dirs (snd (snd (stop c w))) =
     (case self_user_data_dir c of
        None \<Rightarrow> dirs w
      | Some p \<Rightarrow> if p \<in> undeletable w then dirs w else dirs w - {p})"
  by (auto simp: stop_def Let_def rmtree_def emit_def path_exists_def
      split: option.splits sum.splits prod.splits if_splits)

lemma stop_unstatable:
  "unstatable (snd (snd (stop c w))) = unstatable w"
  by (auto simp: stop_def Let_def rmtree_def emit_def path_exists_def
      split: option.splits sum.splits prod.splits if_splits)

text \<open>
  What \<open>stop\<close> does when the existence test of the directory does not raise: it
  returns, on the first call and on the one after it, the handle is cleared and
  \<open>is_active\<close> is false, the second call leaves the controller as the first left it,
  the probe comes before the quit, there is no quit when the probe fails, and the
  removal is attempted when the directory is found.
\<close>

lemma stop_when_examinable:
  assumes ok: "case self_user_data_dir c of None \<Rightarrow> True | Some p \<Rightarrow> p \<notin> unstatable w"
  shows "fst (stop c w) = Inr ()"
    and "fst (stop (fst (snd (stop c w))) (snd (snd (stop c w)))) = Inr ()"
    and "driver (fst (snd (stop c w))) = None"
    and "\<not> is_active (fst (snd (stop c w)))"
    and "fst (snd (stop (fst (snd (stop c w))) (snd (snd (stop c w))))) = fst (snd (stop c w))"
    and "case driver c of
           None \<Rightarrow> new_events w (snd (snd (stop c w))) =
                    (case self_user_data_dir c of
                       None \<Rightarrow> []
                     | Some p \<Rightarrow> if p \<in> dirs w then [Rmtree p] else [])
         | Some b \<Rightarrow>
             if responsive b then take 2 (new_events w (snd (snd (stop c w)))) = [Probe, Quit]
             else take 1 (new_events w (snd (snd (stop c w)))) = [Probe]
                  \<and> Quit \<notin> set (new_events w (snd (snd (stop c w))))"
proof -
  show "fst (stop c w) = Inr ()"
    using ok by (auto simp: stop_result split: option.splits)
  show "fst (stop (fst (snd (stop c w))) (snd (snd (stop c w)))) = Inr ()"
    using ok by (auto simp: stop_result stop_controller stop_unstatable split: option.splits)
  show "driver (fst (snd (stop c w))) = None" by (simp add: stop_controller)
  show "\<not> is_active (fst (snd (stop c w)))" by (simp add: stop_controller is_active_def)
  show "fst (snd (stop (fst (snd (stop c w))) (snd (snd (stop c w))))) = fst (snd (stop c w))"
    by (simp add: stop_controller)
  show "case driver c of
           None \<Rightarrow> new_events w (snd (snd (stop c w))) =
                    (case self_user_data_dir c of
                       None \<Rightarrow> []
                     | Some p \<Rightarrow> if p \<in> dirs w then [Rmtree p] else [])
         | Some b \<Rightarrow>
             if responsive b then take 2 (new_events w (snd (snd (stop c w)))) = [Probe, Quit]
             else take 1 (new_events w (snd (snd (stop c w)))) = [Probe]
                  \<and> Quit \<notin> set (new_events w (snd (snd (stop c w))))"
    by (simp add: stop_new_events split: option.splits)
qed

text \<open>
  Claim C3. The claim is that \<open>stop\<close> never raises, from any controller state. The
  test \<open>self._user_data_dir.exists()\<close> stands in the condition of the \<open>if\<close>, outside the
  \<open>try\<close> blocks that guard the probe, the quit and the removal. On a controller whose
  user-data directory is a path on which \<open>exists()\<close> raises, \<open>stop\<close> clears the handle
  and then raises that error; so does every call of \<open>stop\<close> after it.
\<close>

theorem stop_raises_when_exists_raises:
  assumes "self_user_data_dir c = Some p" and "p \<notin> dirs w" and "p \<in> unstatable w"
  shows "fst (stop c w) = Inl (OSError ''stat'')
       \<and> driver (fst (snd (stop c w))) = None
       \<and> fst (stop (fst (snd (stop c w))) (snd (snd (stop c w)))) = Inl (OSError ''stat'')"
  using assms by (simp add: stop_result stop_controller stop_unstatable stop_dirs)

theorem stop_raises_when_exists_raises_witness:
  "fst (stop (fst (snd (start always_failing_env (controller_init long_path_config) long_path_world)))
        long_path_world) = Inl (OSError ''stat'')
   \<and> driver (fst (snd (stop
        (fst (snd (start always_failing_env (controller_init long_path_config) long_path_world)))
        long_path_world))) = None"
proof -
  have d: "self_user_data_dir
             (fst (snd (start always_failing_env (controller_init long_path_config) long_path_world)))
           = Some long_path"
    by (rule start_sets_supplied_dir) (simp add: controller_init_def long_path_config_def)
  have w: "long_path \<notin> dirs long_path_world" "long_path \<in> unstatable long_path_world"
    by (simp_all add: long_path_world_def)
  from stop_raises_when_exists_raises [OF d w] show ?thesis by simp
qed

section \<open>Teardown of a caller-supplied profile directory\<close>

text \<open>
  Claim C9. A user-data directory that the caller supplied in the configuration becomes
  the controller's directory attribute in \<open>start\<close>, whether the start succeeds or
  raises, and \<open>stop\<close> does not ask where the directory came from: every later call of
  \<open>stop\<close>, in any world where the directory exists, attempts its recursive removal,
  the directory is gone afterwards unless the removal fails, and the attribute stays
  set for the next call.
\<close>

theorem stop_removes_caller_supplied_dir:
  assumes "user_data_dir (config c) = Some p"
  shows "self_user_data_dir (fst (snd (start env c w))) = Some p
       \<and> (\<forall>w2. p \<in> dirs w2 \<longrightarrow>
            Rmtree p \<in> set (new_events w2 (snd (snd (stop (fst (snd (start env c w))) w2))))
          \<and> (p \<notin> undeletable w2 \<longrightarrow> p \<notin> dirs (snd (snd (stop (fst (snd (start env c w))) w2))))
          \<and> self_user_data_dir (fst (snd (stop (fst (snd (start env c w))) w2))) = Some p)"
proof -
  have d: "self_user_data_dir (fst (snd (start env c w))) = Some p"
    using assms by (rule start_sets_supplied_dir)
  show ?thesis
    by (simp add: d stop_new_events stop_dirs stop_controller split: option.splits)
qed

theorem stop_removes_caller_supplied_dir_witness:
  "self_user_data_dir (fst (snd (start always_failing_env (controller_init profile_config) fresh_world)))
     = Some ''/home/u/profile''
   \<and> Rmtree ''/home/u/profile'' \<in> set (new_events profile_world (snd (snd (stop
        (fst (snd (start always_failing_env (controller_init profile_config) fresh_world)))
        profile_world))))
   \<and> ''/home/u/profile'' \<notin> dirs (snd (snd (stop
        (fst (snd (start always_failing_env (controller_init profile_config) fresh_world)))
        profile_world)))"
  using stop_removes_caller_supplied_dir [of "controller_init profile_config" "''/home/u/profile''"
      always_failing_env fresh_world]
  by (simp add: controller_init_def profile_config_def profile_world_def)

section \<open>Closing extra windows\<close>

lemma close_loop_inv:
  assumes "responsive b" and "set hs \<subseteq> set (handles b)" and "distinct hs"
  shows "\<exists>b' lg'. close_loop orig hs b n lg =
            (b', n + length (filter (\<lambda>h. h \<noteq> orig \<and> h \<notin> stuck b) hs), lg')
         \<and> handles b' = filter (\<lambda>h. \<not> (h \<in> set hs \<and> h \<noteq> orig \<and> h \<notin> stuck b)) (handles b)
         \<and> responsive b' \<and> stuck b' = stuck b"
  using assms
proof (induction hs arbitrary: b n lg)
  case Nil
  then show ?case by simp
next
  case (Cons h hs)
  from Cons.prems have hin: "h \<in> set (handles b)" and sub: "set hs \<subseteq> set (handles b)"
    and hn: "h \<notin> set hs" and dis: "distinct hs" by auto
  show ?case
  proof (cases "h = orig")
    case True
    from Cons.IH [OF Cons.prems(1) sub dis, of n lg] obtain b' lg' where
      r: "close_loop orig hs b n lg = (b', n + length (filter (\<lambda>h. h \<noteq> orig \<and> h \<notin> stuck b) hs), lg')"
      and h: "handles b' = filter (\<lambda>h. \<not> (h \<in> set hs \<and> h \<noteq> orig \<and> h \<notin> stuck b)) (handles b)"
      and o: "responsive b'" "stuck b' = stuck b" by blast
    have "filter (\<lambda>x. \<not> (x \<in> set hs \<and> x \<noteq> orig \<and> x \<notin> stuck b)) (handles b)
        = filter (\<lambda>x. \<not> (x \<in> set (h # hs) \<and> x \<noteq> orig \<and> x \<notin> stuck b)) (handles b)"
      using True by (intro filter_cong) auto
    with r h o True show ?thesis by simp
  next
    case False
    define b1 where "b1 = b\<lparr>focus := Some h\<rparr>"
    have sw: "driver_switch_to_window b h = Inr b1"
      using Cons.prems(1) hin by (simp add: driver_switch_to_window_def b1_def)
    show ?thesis
    proof (cases "h \<in> stuck b")
      case True
      have cl: "driver_close b1 = Inl (WebDriverException ''close failed'')"
        using Cons.prems(1) True by (simp add: driver_close_def b1_def)
      have p1: "responsive b1" "set hs \<subseteq> set (handles b1)" using Cons.prems(1) sub by (simp_all add: b1_def)
      from Cons.IH [OF p1 dis, of n "lg @ [''Failed to close window '' @ h]"] obtain b' lg' where
        r: "close_loop orig hs b1 n (lg @ [''Failed to close window '' @ h])
              = (b', n + length (filter (\<lambda>h. h \<noteq> orig \<and> h \<notin> stuck b1) hs), lg')"
        and h: "handles b' = filter (\<lambda>h. \<not> (h \<in> set hs \<and> h \<noteq> orig \<and> h \<notin> stuck b1)) (handles b1)"
        and o: "responsive b'" "stuck b' = stuck b1" by blast
      have s1: "stuck b1 = stuck b" "handles b1 = handles b" by (simp_all add: b1_def)
      have "filter (\<lambda>x. \<not> (x \<in> set hs \<and> x \<noteq> orig \<and> x \<notin> stuck b)) (handles b)
          = filter (\<lambda>x. \<not> (x \<in> set (h # hs) \<and> x \<noteq> orig \<and> x \<notin> stuck b)) (handles b)"
        using True by (intro filter_cong) auto
      with r h o s1 False sw cl True show ?thesis by simp
    next
      case nst: False
      define b2 where "b2 = b1\<lparr>handles := removeAll h (handles b1), focus := None\<rparr>"
      have cl: "driver_close b1 = Inr b2"
        using Cons.prems(1) nst by (simp add: driver_close_def b1_def b2_def)
      have p2: "responsive b2" "set hs \<subseteq> set (handles b2)"
        using Cons.prems(1) sub hn by (auto simp: b1_def b2_def)
      from Cons.IH [OF p2 dis, of "Suc n" lg] obtain b' lg' where
        r: "close_loop orig hs b2 (Suc n) lg
              = (b', Suc n + length (filter (\<lambda>h. h \<noteq> orig \<and> h \<notin> stuck b2) hs), lg')"
        and h: "handles b' = filter (\<lambda>h. \<not> (h \<in> set hs \<and> h \<noteq> orig \<and> h \<notin> stuck b2)) (handles b2)"
        and o: "responsive b'" "stuck b' = stuck b2" by blast
      have s2: "stuck b2 = stuck b" "handles b2 = filter (\<lambda>x. x \<noteq> h) (handles b)"
        by (simp_all add: b1_def b2_def removeAll_filter_not_eq eq_commute)
      have "filter (\<lambda>x. \<not> (x \<in> set hs \<and> x \<noteq> orig \<and> x \<notin> stuck b)) (filter (\<lambda>x. x \<noteq> h) (handles b))
          = filter (\<lambda>x. \<not> (x \<in> set (h # hs) \<and> x \<noteq> orig \<and> x \<notin> stuck b)) (handles b)"
        using nst False unfolding filter_filter by (intro filter_cong) auto
      with r h o s2 False sw cl nst show ?thesis by simp
    qed
  qed
qed

lemma filter_eq_singleton:
  "distinct xs \<Longrightarrow> x \<in> set xs \<Longrightarrow> filter (\<lambda>h. h = x) xs = [x]"
  by (induction xs) (auto simp: filter_empty_conv)

lemma length_filter_neq:
  assumes "distinct xs" and "x \<in> set xs"
  shows "length (filter (\<lambda>h. h \<noteq> x) xs) = length xs - 1"
proof -
  have "length (filter (\<lambda>h. h = x) xs) + length (filter (\<lambda>h. \<not> h = x) xs) = length xs"
    by (rule sum_length_filter_compl)
  with filter_eq_singleton [OF assms] show ?thesis by simp
qed

text \<open>
  Claim C8. On a live session whose tracked original is among its (distinct) window
  handles, \<open>close_extra_windows\<close> returns the number of handles other than the original
  whose close succeeded, leaves open the original and the windows that could not be
  closed, and ends with the focus on the original, which stays the tracked handle. When
  every close succeeds the result is the number of windows minus one and the original
  is the only window left.
\<close>

theorem close_extra_windows_leaves_original:
  assumes drv: "wm_driver wm = Some b" and orig: "original_handle wm = Some orig"
      and ne: "orig \<noteq> []" and resp: "responsive b"
      and mem: "orig \<in> set (handles b)" and dis: "distinct (handles b)"
  shows "\<exists>wm' b'. close_extra_windows wm =
            (length (filter (\<lambda>h. h \<noteq> orig \<and> h \<notin> stuck b) (handles b)), wm')
         \<and> wm_driver wm' = Some b'
         \<and> handles b' = filter (\<lambda>h. h = orig \<or> h \<in> stuck b) (handles b)
         \<and> focus b' = Some orig
         \<and> original_handle wm' = Some orig
         \<and> (if list_all (\<lambda>h. h = orig \<or> h \<notin> stuck b) (handles b)
            then fst (close_extra_windows wm) = length (handles b) - 1 \<and> handles b' = [orig]
            else True)"
proof -
  let ?n = "length (filter (\<lambda>h. h \<noteq> orig \<and> h \<notin> stuck b) (handles b))"
  from close_loop_inv [OF resp subset_refl dis, of orig 0 "wm_log wm"] obtain b1 lg where
    loop: "close_loop orig (handles b) b 0 (wm_log wm) = (b1, ?n, lg)"
    and h1: "handles b1 = filter (\<lambda>h. \<not> (h \<in> set (handles b) \<and> h \<noteq> orig \<and> h \<notin> stuck b)) (handles b)"
    and r1: "responsive b1" by auto
  have h1': "handles b1 = filter (\<lambda>h. h = orig \<or> h \<in> stuck b) (handles b)"
    unfolding h1 by (intro filter_cong) auto
  have m1: "orig \<in> set (handles b1)" using mem by (simp add: h1')
  define wm1 where "wm1 = wm\<lparr>wm_driver := Some b1, wm_log := lg\<rparr>"
  define b2 where "b2 = b1\<lparr>focus := Some orig\<rparr>"
  have ea: "ensure_active wm1 = (Inr True, wm1\<lparr>wm_driver := Some b2\<rparr>)"
    using orig ne r1 m1
    by (simp add: ensure_active_def wm1_def truthy_def driver_window_handles_def
        driver_switch_to_window_def b2_def)
  define wm' where "wm' = (if ?n > 0 then wm_say ''Closed extra window(s)'' (wm1\<lparr>wm_driver := Some b2\<rparr>)
      else wm1\<lparr>wm_driver := Some b2\<rparr>)"
  have res: "close_extra_windows wm = (?n, wm')"
    using drv orig ne resp loop ea
    by (simp add: close_extra_windows_def truthy_def driver_window_handles_def wm1_def wm'_def)
  have w1: "wm_driver wm' = Some b2" "original_handle wm' = Some orig"
    using orig by (simp_all add: wm'_def wm_say_def wm1_def)
  have w2: "handles b2 = filter (\<lambda>h. h = orig \<or> h \<in> stuck b) (handles b)" "focus b2 = Some orig"
    using h1' by (simp_all add: b2_def)
  have all: "list_all (\<lambda>h. h = orig \<or> h \<notin> stuck b) (handles b)
      \<Longrightarrow> ?n = length (handles b) - 1 \<and> handles b2 = [orig]"
  proof -
    assume a: "list_all (\<lambda>h. h = orig \<or> h \<notin> stuck b) (handles b)"
    have "filter (\<lambda>h. h \<noteq> orig \<and> h \<notin> stuck b) (handles b) = filter (\<lambda>h. h \<noteq> orig) (handles b)"
      using a by (intro filter_cong) (auto simp: list_all_iff)
    then have n: "?n = length (handles b) - 1" using length_filter_neq [OF dis mem] by simp
    have "filter (\<lambda>h. h = orig \<or> h \<in> stuck b) (handles b) = filter (\<lambda>h. h = orig) (handles b)"
      using a by (intro filter_cong) (auto simp: list_all_iff)
    then have "handles b2 = [orig]" using w2 filter_eq_singleton [OF dis mem] by simp
    with n show ?thesis by simp
  qed
  show ?thesis using res w1 w2 all by auto
qed

theorem close_extra_windows_leaves_original_witness:
  "\<exists>wm' b'. close_extra_windows three_windows = (2, wm')
     \<and> wm_driver wm' = Some b' \<and> handles b' = [''w0''] \<and> focus b' = Some ''w0''
     \<and> original_handle wm' = Some ''w0''"
  using close_extra_windows_leaves_original [of three_windows live_browser "''w0''"]
  by (auto simp add: three_windows_def live_browser_def numeral_2_eq_2)

section \<open>Cookie round trip\<close>













section \<open>The HTTP session handed over\<close>

lemma jar_set_well_formed:
  assumes "well_formed_cookie ck"
  shows "\<exists>n v. map_of ck ''name'' = Some n \<and> map_of ck ''value'' = Some v
       \<and> jar_set n v (map_of ck ''domain'') st = Inr (st(jar_key ck := Some (jar_value ck)))"
  using assms
  by (auto simp: well_formed_cookie_def is_str_def jar_set_def jar_key_def jar_value_def
      split: option.splits jval.splits)

lemma copy_cookies_well_formed:
  assumes "list_all well_formed_cookie cks"
  shows "copy_cookies cks s =
     Inr (s\<lparr>cookie_store := foldl (\<lambda>st ck. st(jar_key ck := Some (jar_value ck))) (cookie_store s) cks\<rparr>)"
  using assms
proof (induction cks arbitrary: s)
  case Nil
  then show ?case by simp
next
  case (Cons ck cks)
  from Cons.prems have wf: "well_formed_cookie ck" and rest: "list_all well_formed_cookie cks"
    by simp_all
  from jar_set_well_formed [OF wf, of "cookie_store s"] obtain n v where
    nv: "map_of ck ''name'' = Some n" "map_of ck ''value'' = Some v"
    and js: "jar_set n v (map_of ck ''domain'') (cookie_store s)
               = Inr ((cookie_store s)(jar_key ck := Some (jar_value ck)))"
    by blast
  show ?case using nv js Cons.IH [OF rest] by simp
qed

lemma store_other_key:
  "list_all (\<lambda>ck. jar_key ck \<noteq> k) cks \<Longrightarrow>
     foldl (\<lambda>st ck. st(jar_key ck := Some (jar_value ck))) st cks k = st k"
  by (induction cks arbitrary: st) auto

lemma store_last_wins:
  assumes "list_all (\<lambda>ck'. jar_key ck' \<noteq> jar_key ck) post"
  shows "foldl (\<lambda>st ck. st(jar_key ck := Some (jar_value ck))) st (pre @ ck # post) (jar_key ck)
           = Some (jar_value ck)"
  using assms by (simp add: store_other_key)

lemma user_agent_header:
  "dict_get (dict_update (headers new_session) [(''User-Agent'', ua)]) ''User-Agent'' [] = ua"
  by (simp add: dict_update_def new_session_def dict_get_def)

lemma get_requests_session_live:
  assumes drv: "driver c = Some b" and resp: "responsive b"
      and wf: "list_all well_formed_cookie (jar b)"
      and ua: "current_user_agent c = Some ua" "ua \<noteq> []"
  shows "\<exists>s. get_requests_session c = Inr s
       \<and> cookie_store s = foldl (\<lambda>st ck. st(jar_key ck := Some (jar_value ck))) (\<lambda>k. None) (jar b)
       \<and> dict_get (headers s) ''User-Agent'' [] = ua
       \<and> session_proxies s =
           (case proxy_manager c of
              None \<Rightarrow> []
            | Some pm \<Rightarrow> if is_enabled pm then dict_update [] (the (get_requests_proxies pm)) else [])"
proof -
  define s1 where "s1 = new_session\<lparr>cookie_store :=
      foldl (\<lambda>st ck. st(jar_key ck := Some (jar_value ck))) (\<lambda>k. None) (jar b)\<rparr>"
  have cp: "copy_cookies (jar b) new_session = Inr s1"
    using copy_cookies_well_formed [OF wf, of new_session] by (simp add: s1_def new_session_def)
  define s2 where "s2 = s1\<lparr>headers := dict_update (headers s1) [(''User-Agent'', ua)]\<rparr>"
  have h2: "dict_get (headers s2) ''User-Agent'' [] = ua"
    using user_agent_header [of ua] by (simp add: s2_def s1_def)
  have c2: "cookie_store s2 =
      foldl (\<lambda>st ck. st(jar_key ck := Some (jar_value ck))) (\<lambda>k. None) (jar b)"
    by (simp add: s2_def s1_def)
  have p2: "session_proxies s2 = []" by (simp add: s2_def s1_def new_session_def)
  show ?thesis
  proof (cases "proxy_manager c")
    case None
    then have "get_requests_session c = Inr s2"
      using drv resp cp ua
      by (simp add: get_requests_session_def driver_get_cookies_def truthy_def s2_def Let_def)
    with h2 c2 p2 None show ?thesis by simp
  next
    case (Some pm)
    show ?thesis
    proof (cases "is_enabled pm")
      case False
      then have "get_requests_session c = Inr s2"
        using drv resp cp ua Some
        by (simp add: get_requests_session_def driver_get_cookies_def truthy_def s2_def Let_def)
      with h2 c2 p2 Some False show ?thesis by simp
    next
      case True
      then obtain d where d: "get_requests_proxies pm = Some d"
        by (auto simp: is_enabled_def get_requests_proxies_def split: option.splits)
      have r: "get_requests_session c =
          Inr (if d = [] then s2 else s2\<lparr>session_proxies := dict_update (session_proxies s2) d\<rparr>)"
        using drv resp cp ua Some True d
        by (simp add: get_requests_session_def driver_get_cookies_def truthy_def s2_def Let_def)
      show ?thesis
        using r h2 c2 p2 Some True d by (cases "d = []") (simp_all add: dict_update_def)
    qed
  qed
qed

lemma get_requests_session_amended:
  assumes "driver c = Some b" and "responsive b"
      and "list_all well_formed_cookie (jar b)"
      and "current_user_agent c = Some ua" and "ua \<noteq> []"
  shows "get_requests_session (c0\<lparr>driver := None\<rparr>) = Inl BrowserNotStarted
       \<and> (\<exists>s. get_requests_session c = Inr s
            \<and> (\<forall>pre ck post.
                  jar b = pre @ ck # post \<and> list_all (\<lambda>ck'. jar_key ck' \<noteq> jar_key ck) post
                  \<longrightarrow> cookie_store s (jar_key ck) = Some (jar_value ck))
            \<and> (\<forall>k. list_all (\<lambda>ck. jar_key ck \<noteq> k) (jar b) \<longrightarrow> cookie_store s k = None)
            \<and> dict_get (headers s) ''User-Agent'' [] = ua
            \<and> session_proxies s =
                (case proxy_manager c of
                   None \<Rightarrow> []
                 | Some pm \<Rightarrow>
                     if is_enabled pm then dict_update [] (the (get_requests_proxies pm)) else []))"
proof -
  from get_requests_session_live [OF assms] obtain s where
    s: "get_requests_session c = Inr s"
    and st: "cookie_store s = foldl (\<lambda>st ck. st(jar_key ck := Some (jar_value ck))) (\<lambda>k. None) (jar b)"
    and h: "dict_get (headers s) ''User-Agent'' [] = ua"
    and p: "session_proxies s =
           (case proxy_manager c of
              None \<Rightarrow> []
            | Some pm \<Rightarrow> if is_enabled pm then dict_update [] (the (get_requests_proxies pm)) else [])"
    by blast
  have last: "\<forall>pre ck post.
      jar b = pre @ ck # post \<and> list_all (\<lambda>ck'. jar_key ck' \<noteq> jar_key ck) post
      \<longrightarrow> cookie_store s (jar_key ck) = Some (jar_value ck)"
  proof (intro allI impI)
    fix pre ck post
    assume a: "jar b = pre @ ck # post \<and> list_all (\<lambda>ck'. jar_key ck' \<noteq> jar_key ck) post"
    then have j: "jar b = pre @ ck # post"
      and l: "list_all (\<lambda>ck'. jar_key ck' \<noteq> jar_key ck) post" by simp_all
    show "cookie_store s (jar_key ck) = Some (jar_value ck)"
      unfolding st j by (rule store_last_wins [OF l])
  qed
  have other: "\<forall>k. list_all (\<lambda>ck. jar_key ck \<noteq> k) (jar b) \<longrightarrow> cookie_store s k = None"
    unfolding st by (simp add: store_other_key)
  have "get_requests_session (c0\<lparr>driver := None\<rparr>) = Inl BrowserNotStarted"
    by (simp add: get_requests_session_def)
  with s last other h p show ?thesis by blast
qed

text \<open>
  Claim C5, amended. On every controller without a handle \<open>get_requests_session\<close>
  raises the not-started exception. With a handle that answers, live cookies that each
  have a name, a value and a domain (all strings), and a resolved user agent, it
  returns a session whose cookie jar holds, under the domain and the name of each live
  cookie and the path \<open>/\<close>, the value of the last live cookie of that domain and name
  (a value in double quotes without its backslash-escaped quotes), and holds nothing
  else; whose User-Agent header is the controller's user agent; and
  whose proxy mapping is the manager's mapping when the manager reports enabled and is
  empty otherwise.
\<close>

theorem http_session_carries_browser_state:
  assumes "driver c = Some b" and "responsive b"
      and "list_all well_formed_cookie (jar b)"
      and "current_user_agent c = Some ua" and "ua \<noteq> []"
  shows "get_requests_session (c0\<lparr>driver := None\<rparr>) = Inl BrowserNotStarted
       \<and> (\<exists>s. get_requests_session c = Inr s
            \<and> (\<forall>pre ck post.
                  jar b = pre @ ck # post \<and> list_all (\<lambda>ck'. jar_key ck' \<noteq> jar_key ck) post
                  \<longrightarrow> cookie_store s (jar_key ck) = Some (jar_value ck))
            \<and> (\<forall>k. list_all (\<lambda>ck. jar_key ck \<noteq> k) (jar b) \<longrightarrow> cookie_store s k = None)
            \<and> dict_get (headers s) ''User-Agent'' [] = ua
            \<and> session_proxies s =
                (case proxy_manager c of
                   None \<Rightarrow> []
                 | Some pm \<Rightarrow>
                     if is_enabled pm then dict_update [] (the (get_requests_proxies pm)) else []))"
  using assms by (rule get_requests_session_amended)

theorem http_session_carries_browser_state_witness:
  "get_requests_session (controller_init tor_config) = Inl BrowserNotStarted
   \<and> (\<exists>s. get_requests_session started_controller = Inr s
        \<and> cookie_store s (''example.com'', ''/'', JStr ''sid'') = Some (JStr ''abc'')
        \<and> dict_get (headers s) ''User-Agent'' [] = default_user_agent
        \<and> session_proxies s =
            [(''http'', ''socks5h://127.0.0.1:9150''), (''https'', ''socks5h://127.0.0.1:9150'')])"
proof -
  have pm: "proxy_manager started_controller =
      Some \<lparr>pm_config = Some \<lparr>enabled = True, type = ''tor'', address = ''127.0.0.1:8080'',
                    username = None, password = None\<rparr>,
            proxies = Some [(''http'', ''socks5h://127.0.0.1:9150''), (''https'', ''socks5h://127.0.0.1:9150'')]\<rparr>"
    by (simp add: started_controller_def controller_init_def tor_config_def
        ProxyManager_init_def setup_proxies_def lower_def lower_char_def)
  have n0: "get_requests_session (controller_init tor_config) = Inl BrowserNotStarted"
    by (simp add: get_requests_session_def controller_init_def)
  have ua: "default_user_agent \<noteq> []" by (simp add: default_user_agent_def)
  have drv: "driver started_controller = Some session_browser"
    and cua: "current_user_agent started_controller = Some default_user_agent"
    by (simp_all add: started_controller_def)
  have resp: "responsive session_browser" by (simp add: session_browser_def)
  have wf: "list_all well_formed_cookie (jar session_browser)"
    by (simp add: session_browser_def well_formed_cookie_def is_str_def)
  let ?ck = "[(''name'', JStr ''sid''), (''value'', JStr ''abc''), (''domain'', JStr ''example.com'')]"
  have j: "jar session_browser = [] @ ?ck # []" by (simp add: session_browser_def)
  have k: "jar_key ?ck = (''example.com'', ''/'', JStr ''sid'')" by (simp add: jar_key_def)
  have v: "jar_value ?ck = JStr ''abc''"
    by (simp add: jar_value_def unquote_value_def startswith_def)
  from http_session_carries_browser_state [OF drv resp wf cua ua, of c0] obtain s where
    s: "get_requests_session started_controller = Inr s"
    and last: "\<forall>pre ck post.
        jar session_browser = pre @ ck # post \<and> list_all (\<lambda>ck'. jar_key ck' \<noteq> jar_key ck) post
        \<longrightarrow> cookie_store s (jar_key ck) = Some (jar_value ck)"
    and h: "dict_get (headers s) ''User-Agent'' [] = default_user_agent"
    and p: "session_proxies s =
           (case proxy_manager started_controller of
              None \<Rightarrow> []
            | Some pm \<Rightarrow> if is_enabled pm then dict_update [] (the (get_requests_proxies pm)) else [])"
    by blast
  have "jar session_browser = [] @ ?ck # []
      \<and> list_all (\<lambda>ck'. jar_key ck' \<noteq> jar_key ?ck) []" using j by simp
  with last have "cookie_store s (jar_key ?ck) = Some (jar_value ?ck)" by blast
  then have c: "cookie_store s (''example.com'', ''/'', JStr ''sid'') = Some (JStr ''abc'')"
    by (simp only: k v)
  have p': "session_proxies s =
      [(''http'', ''socks5h://127.0.0.1:9150''), (''https'', ''socks5h://127.0.0.1:9150'')]"
    using p by (simp add: pm is_enabled_def get_requests_proxies_def dict_update_def)
  from n0 s c h p' show ?thesis by blast
qed

text \<open>
  The claim as stated (an entry with name, value and domain for every live cookie)
  fails where two live cookies share domain and name: the path is not copied, so the
  second replaces the first, and the jar holds no entry with the value of the first.
\<close>

theorem same_name_cookie_overwritten_counterexample:
  "(case get_requests_session same_name_controller of
      Inl e \<Rightarrow> False
    | Inr s \<Rightarrow>
        cookie_store s (''.example.com'', ''/'', JStr ''sid'') = Some (JStr ''B'')
        \<and> cookie_store s (''.example.com'', ''/a'', JStr ''sid'') = None
        \<and> cookie_store s (''.example.com'', ''/b'', JStr ''sid'') = None)"
  by (simp add: get_requests_session_def same_name_controller_def same_name_browser_def
      controller_init_def plain_config_def driver_get_cookies_def jar_set_def new_session_def
      unquote_value_def startswith_def truthy_def default_user_agent_def)

text \<open>
  On the live cookies of the specification's example, a single cookie with a name and
  a value and no domain, the call raises: \<open>cookie.get('domain')\<close> is \<open>None\<close>, which
  \<open>set\<close> does not accept.
\<close>

lemma get_requests_session_without_domain:
  "get_requests_session no_domain_controller = Inl (AttributeError ''startswith'')"
  by (simp add: get_requests_session_def no_domain_controller_def live_browser_def
      driver_get_cookies_def jar_set_def new_session_def)

end
